theory Spec2Isabelle
  imports Main
begin

section \<open>Python values, exceptions and truthiness\<close>

text \<open>
  The values that reach \<^verbatim>\<open>summarise\<close> through \<^verbatim>\<open>*args\<close> and \<^verbatim>\<open>by\<close>: column
  selectors, function names, callables, result names, lists and dictionaries of these.
  A callable is opaque to \<^verbatim>\<open>summarise\<close> (it is only tested with \<^verbatim>\<open>callable\<close> and handed
  on to pandas), so it is represented by an identifier.
\<close>

datatype pyval =
    PNone
  | PBool bool
  | PInt int
  | PStr string
  | PTuple "pyval list"
  | PList "pyval list"
  | PDict "(pyval \<times> pyval) list"
  | PCallable nat

text \<open>
  Exceptions. \<^verbatim>\<open>ValueError\<close> is raised by \<^verbatim>\<open>summarise\<close> itself; the others come from
  Python's own operations and from the libraries it calls.
\<close>

datatype error =
    ValueError string
  | CheckError string
  | AttributeError string
  | KeyError string
  | IndexError string
  | TypeError string

text \<open>\<^verbatim>\<open>bool(v)\<close>, as used by \<^verbatim>\<open>if val.name:\<close>, \<^verbatim>\<open>if by:\<close> and \<^verbatim>\<open>ag.name and ...\<close>.\<close>

fun truthy :: "pyval \<Rightarrow> bool" where
  "truthy PNone = False"
| "truthy (PBool b) = b"
| "truthy (PInt i) = (i \<noteq> 0)"
| "truthy (PStr s) = (s \<noteq> [])"
| "truthy (PTuple xs) = (xs \<noteq> [])"
| "truthy (PList xs) = (xs \<noteq> [])"
| "truthy (PDict kvs) = (kvs \<noteq> [])"
| "truthy (PCallable k) = True"

text \<open>\<^verbatim>\<open>isinstance(v, str)\<close>, \<^verbatim>\<open>callable(v)\<close>, \<^verbatim>\<open>isinstance(v, list)\<close> and
  \<^verbatim>\<open>isinstance(v, Hashable)\<close>.\<close>

fun is_str :: "pyval \<Rightarrow> bool" where
  "is_str (PStr s) = True"
| "is_str v = False"

fun callable :: "pyval \<Rightarrow> bool" where
  "callable (PCallable k) = True"
| "callable v = False"

fun is_list :: "pyval \<Rightarrow> bool" where
  "is_list (PList xs) = True"
| "is_list v = False"

fun is_Hashable :: "pyval \<Rightarrow> bool" where
  "is_Hashable (PList xs) = False"
| "is_Hashable (PDict kvs) = False"
| "is_Hashable v = True"

text \<open>
  \<^verbatim>\<open>hash(v)\<close> succeeds: a tuple is an instance of \<^verbatim>\<open>Hashable\<close> whatever it holds, but
  hashing it hashes its elements, so a tuple that holds a list or a dictionary
  cannot be hashed.
\<close>

fun hashable :: "pyval \<Rightarrow> bool" where
  "hashable (PList xs) = False"
| "hashable (PDict kvs) = False"
| "hashable (PTuple xs) = (\<forall>x \<in> set xs. hashable x)"
| "hashable v = True"

text \<open>\<^verbatim>\<open>pandas.api.types.is_scalar(v)\<close>: true of \<^verbatim>\<open>None\<close>, booleans, integers and
  strings, false of tuples, lists, dictionaries and functions.\<close>

fun is_scalar :: "pyval \<Rightarrow> bool" where
  "is_scalar PNone = True"
| "is_scalar (PBool b) = True"
| "is_scalar (PInt i) = True"
| "is_scalar (PStr s) = True"
| "is_scalar v = False"

text \<open>\<^verbatim>\<open>v == "describe"\<close>: a string equals only an equal string.\<close>

fun eq_str :: "pyval \<Rightarrow> string \<Rightarrow> bool" where
  "eq_str (PStr s) t = (s = t)"
| "eq_str v t = False"

text \<open>\<^verbatim>\<open>str(n)\<close> of a position, as the f-strings of the error messages print it.\<close>

fun str_nat :: "nat \<Rightarrow> string" where
  "str_nat n =
     (if n < 10 then [''0123456789'' ! n]
      else str_nat (n div 10) @ [''0123456789'' ! (n mod 10)])"

declare str_nat.simps [simp del]

section \<open>Column headers and data frames\<close>

text \<open>
  A pandas column header is a flat \<^verbatim>\<open>Index\<close> of labels or a \<^verbatim>\<open>MultiIndex\<close>, kept as
  its level arrays (one list of labels per level, each as long as the header).
\<close>

datatype pd_index =
    Index "pyval list"
  | MultiIndex "pyval list list"

fun nlevels :: "pd_index \<Rightarrow> nat" where
  "nlevels (Index vs) = 1"
| "nlevels (MultiIndex ls) = length ls"

text \<open>\<^verbatim>\<open>columns.size\<close> and \<^verbatim>\<open>len(columns)\<close>: the number of columns.\<close>

fun index_size :: "pd_index \<Rightarrow> nat" where
  "index_size (Index vs) = length vs"
| "index_size (MultiIndex []) = 0"
| "index_size (MultiIndex (l # ls)) = length l"

fun get_level_values :: "pd_index \<Rightarrow> nat \<Rightarrow> error + pyval list" where
  "get_level_values (Index vs) n =
     (if n = 0 then Inr vs else Inl (IndexError ''Too many levels''))"
| "get_level_values (MultiIndex ls) n =
     (if n < length ls then Inr (ls ! n) else Inl (IndexError ''Too many levels''))"

text \<open>\<^verbatim>\<open>pd.MultiIndex.from_arrays(arrays)\<close>.\<close>

definition MultiIndex_from_arrays :: "pyval list list \<Rightarrow> error + pd_index" where
  "MultiIndex_from_arrays arrays =
     (if arrays = [] then Inl (ValueError ''Must pass non-zero number of levels/codes'')
      else if list_ex (\<lambda>a. length a \<noteq> length (hd arrays)) arrays
        then Inl (ValueError ''all arrays must be same length'')
      else Inr (MultiIndex arrays))"

text \<open>
  \<^verbatim>\<open>pd.Index([name])\<close>: a tuple label makes a \<^verbatim>\<open>MultiIndex\<close> with one level per
  component, any other label a flat \<^verbatim>\<open>Index\<close>. Building the \<^verbatim>\<open>MultiIndex\<close> hashes the
  components, so a tuple that holds a list or a dictionary raises \<^verbatim>\<open>TypeError\<close>.
\<close>

fun pd_Index_of :: "pyval \<Rightarrow> error + pd_index" where
  "pd_Index_of (PTuple xs) =
     (if \<forall>x \<in> set xs. hashable x then MultiIndex_from_arrays (map (\<lambda>x. [x]) xs)
      else Inl (TypeError ''unhashable type''))"
| "pd_Index_of v = Inr (Index [v])"

text \<open>The labels of the columns, as \<^verbatim>\<open>columns.tolist()\<close> gives them: a tuple per column
  for a \<^verbatim>\<open>MultiIndex\<close>.\<close>

fun index_labels :: "pd_index \<Rightarrow> pyval list" where
  "index_labels (Index vs) = vs"
| "index_labels (MultiIndex ls) =
     map (\<lambda>i. PTuple (map (\<lambda>l. l ! i) ls)) [0..<index_size (MultiIndex ls)]"

record frame =
  columns :: pd_index
  row_index :: pd_index
  data :: "pyval list list"

text \<open>
  Data frames are mutable objects: \<^verbatim>\<open>summarise\<close> assigns to \<^verbatim>\<open>out.columns\<close> and
  \<^verbatim>\<open>frame.columns\<close>. The heap maps an object identity to the frame stored there;
  \<open>next_id\<close> is the identity the next new object gets.
\<close>

record heap =
  objects :: "nat \<Rightarrow> frame"
  next_id :: nat

text \<open>\<^verbatim>\<open>frame.columns = idx\<close> on the object \<open>r\<close>; pandas refuses a header of another
  length.\<close>

definition set_columns :: "nat \<Rightarrow> pd_index \<Rightarrow> heap \<Rightarrow> (error + unit) \<times> heap" where
  "set_columns r idx h =
     (if index_size idx \<noteq> index_size (columns (objects h r))
      then (Inl (ValueError ''Length mismatch''), h)
      else (Inr (), h\<lparr>objects := (objects h)(r := (objects h r)\<lparr>columns := idx\<rparr>)\<rparr>))"

section \<open>Collaborators\<close>

text \<open>
  \<^verbatim>\<open>summarise\<close> delegates column selection to \<^verbatim>\<open>get_index_labels\<close> and grouping,
  aggregation and concatenation to pandas. None of them is part of the function, so
  they are parameters of the model:
  \<^item> \<open>get_index_labels env sel f\<close> is \<^verbatim>\<open>get_index_labels(sel, df, "columns")\<close> on a
    data frame with contents \<open>f\<close>: one label, or an array of labels (an object with
    \<^verbatim>\<open>tolist\<close>);
  \<^item> \<open>groupby env f g\<close> is the exception \<^verbatim>\<open>df.groupby(...)\<close> raises, if any;
  \<^item> \<open>agg env val out fn\<close> is \<^verbatim>\<open>val[out].agg(fn)\<close>, \<open>pipe env val out fn\<close> is
    \<^verbatim>\<open>val[out].pipe(fn)\<close> and \<open>pd_concat env objs axis\<close> is \<^verbatim>\<open>pd.concat(objs, axis=axis)\<close>.
    They run on the heap, may run the user's callables, and either raise or return
    the identity of a data frame, as the interface of the specification has it
    (\<^verbatim>\<open>view.aggregate(function_list) -> table\<close>).
\<close>

datatype labels = OneLabel pyval | Labels "pyval list"

datatype grouping = ByKwargs "(pyval \<times> pyval) list" | ByKeys "pyval list"

text \<open>\<^verbatim>\<open>val\<close>: the data frame itself, or the \<^verbatim>\<open>GroupBy\<close> object bound to it.\<close>

datatype view = DataFrameView nat | GroupByView nat grouping

text \<open>What a variable of \<^verbatim>\<open>summarise\<close> that should hold a data frame can hold: a data
  frame (by identity) or, after a swallowed exception, a column label.\<close>

datatype pyobj = DataFrame nat | Label pyval

record collaborators =
  get_index_labels :: "pyval \<Rightarrow> frame \<Rightarrow> error + labels"
  groupby :: "frame \<Rightarrow> grouping \<Rightarrow> error option"
  agg :: "view \<Rightarrow> pyval list \<Rightarrow> pyval \<Rightarrow> heap \<Rightarrow> (error + nat) \<times> heap"
  pipe :: "view \<Rightarrow> pyval list \<Rightarrow> pyval \<Rightarrow> heap \<Rightarrow> (error + nat) \<times> heap"
  pd_concat :: "pyobj list \<Rightarrow> nat \<Rightarrow> heap \<Rightarrow> (error + nat) \<times> heap"

text \<open>
  Modelled from the spec: \<^verbatim>\<open>janitor.utils.check(varname, value, expected_types)\<close> is
  not among the sources. The spec has the validation fail with an invalid-argument
  error that names the offending position; the position is part of \<open>varname\<close>, which
  the exception carries. The three calls in \<^verbatim>\<open>summarise\<close> pass the value and the list
  of types it may have (\<^verbatim>\<open>[tuple]\<close>, \<^verbatim>\<open>[str, callable, list]\<close>, \<^verbatim>\<open>[Hashable]\<close>): the check
  passes when the value is of one of them. An expected type is the test it stands
  for.
\<close>

definition check :: "string \<Rightarrow> pyval \<Rightarrow> (pyval \<Rightarrow> bool) list \<Rightarrow> error + unit" where
  "check varname v expected_types =
     (if list_ex (\<lambda>t. t v) expected_types then Inr () else Inl (CheckError varname))"

text \<open>
  Modelled from the spec: the named tuple \<^verbatim>\<open>_tupled\<close> of
  \<^verbatim>\<open>janitor.functions.utils\<close> is not among the sources. It has the fields \<^verbatim>\<open>col\<close>,
  \<^verbatim>\<open>func\<close> and \<^verbatim>\<open>name\<close>, the last defaulting to \<^verbatim>\<open>None\<close>. The record holds a
  request after normalisation, when \<^verbatim>\<open>func\<close> is a list.
\<close>

record tupled =
  col :: pyval
  func :: "pyval list"
  name :: pyval

fun is_tuple :: "pyval \<Rightarrow> bool" where
  "is_tuple (PTuple xs) = True"
| "is_tuple v = False"

fun tuple_items :: "pyval \<Rightarrow> pyval list" where
  "tuple_items (PTuple xs) = xs"
| "tuple_items v = []"

fun list_items :: "pyval \<Rightarrow> pyval list" where
  "list_items (PList xs) = xs"
| "list_items v = []"

section \<open>The request normaliser (lines 123 to 155)\<close>

text \<open>The body of the loop over \<^verbatim>\<open>enumerate(args)\<close>, for the tuple \<open>arg\<close> at position
  \<open>num\<close>.\<close>

definition normalise_arg :: "nat \<Rightarrow> pyval \<Rightarrow> error + tupled" where
  "normalise_arg num arg =
     (case check ''The summarise argument'' arg [is_tuple] of
        Inl e \<Rightarrow> Inl e
      | Inr _ \<Rightarrow>
          let xs = tuple_items arg in
          if length xs < 2 then
            Inl (ValueError (''The tuple argument at position '' @ str_nat num @
              '' should have at least a column and an aggregation function.''))
          else if length xs > 3 then
            Inl (ValueError (''The tuple argument at position '' @ str_nat num @
              '' should be a maximum length of 3.''))
          else
            let val_col = xs ! 0;
                val_func = xs ! 1;
                val_name = (if length xs = 3 then xs ! 2 else PNone);
                fn = (if is_str val_func \<or> callable val_func then PList [val_func]
                      else val_func)
            in
            (case check (''func in tuple argument at position '' @ str_nat num) fn
                    [is_str, callable, is_list] of
               Inl e \<Rightarrow> Inl e
             | Inr _ \<Rightarrow>
                 (case (if truthy val_name
                        then check (''name in tuple argument at position '' @ str_nat num)
                               val_name [is_Hashable]
                        else Inr ()) of
                    Inl e \<Rightarrow> Inl e
                  | Inr _ \<Rightarrow>
                      Inr \<lparr>col = val_col, func = list_items fn, name = val_name\<rparr>)))"

fun normalise :: "nat \<Rightarrow> pyval list \<Rightarrow> error + tupled list" where
  "normalise num [] = Inr []"
| "normalise num (arg # args) =
     (case normalise_arg num arg of
        Inl e \<Rightarrow> Inl e
      | Inr ag \<Rightarrow>
          (case normalise (Suc num) args of
             Inl e \<Rightarrow> Inl e
           | Inr aggs \<Rightarrow> Inr (ag # aggs)))"

section \<open>Grouping (lines 156 to 167)\<close>

text \<open>\<^verbatim>\<open>out = get_index_labels(sel, df, "columns")\<close> followed by
  \<^verbatim>\<open>[out] if is_scalar(out) else out.tolist()\<close>. One label that is not a scalar (a
  tuple, the label of a column under a \<^verbatim>\<open>MultiIndex\<close>) has no \<^verbatim>\<open>tolist\<close>.\<close>

definition resolve_columns :: "collaborators \<Rightarrow> pyval \<Rightarrow> frame \<Rightarrow> error + pyval list" where
  "resolve_columns env sel f =
     (case get_index_labels env sel f of
        Inl e \<Rightarrow> Inl e
      | Inr (OneLabel v) \<Rightarrow>
          if is_scalar v then Inr [v] else Inl (AttributeError ''tolist'')
      | Inr (Labels vs) \<Rightarrow> Inr vs)"

text \<open>The pair \<^verbatim>\<open>(by_is_true, val)\<close>.\<close>

definition resolve_by ::
  "collaborators \<Rightarrow> nat \<Rightarrow> pyval \<Rightarrow> heap \<Rightarrow> error + (bool \<times> view)" where
  "resolve_by env df by h =
     (if truthy by then
        (case by of
           PDict kwargs \<Rightarrow>
             (case groupby env (objects h df) (ByKwargs kwargs) of
                Some e \<Rightarrow> Inl e
              | None \<Rightarrow> Inr (True, GroupByView df (ByKwargs kwargs)))
         | _ \<Rightarrow>
             (case resolve_columns env by (objects h df) of
                Inl e \<Rightarrow> Inl e
              | Inr keys \<Rightarrow>
                  (case groupby env (objects h df) (ByKeys keys) of
                     Some e \<Rightarrow> Inl e
                   | None \<Rightarrow> Inr (True, GroupByView df (ByKeys keys)))))
      else Inr (False, DataFrameView df))"

section \<open>The aggregation executor (lines 168 to 194)\<close>

text \<open>The value of \<^verbatim>\<open>out\<close> after line 184: still the resolved column labels, one data
  frame, or the list of data frames of the fallback.\<close>

datatype outv = Cols "pyval list" | OneFrame nat | FrameList "nat list"

text \<open>\<^verbatim>\<open>[val[out].pipe(func) for func in ag.func]\<close>: in order, stopping at the first
  exception.\<close>

fun pipe_all ::
  "collaborators \<Rightarrow> view \<Rightarrow> pyval list \<Rightarrow> pyval list \<Rightarrow> heap \<Rightarrow> (error + nat list) \<times> heap"
where
  "pipe_all env val out [] h = (Inr [], h)"
| "pipe_all env val out (f # fs) h =
     (case pipe env val out f h of
        (Inl e, h1) \<Rightarrow> (Inl e, h1)
      | (Inr r, h1) \<Rightarrow>
          (case pipe_all env val out fs h1 of
             (Inl e, h2) \<Rightarrow> (Inl e, h2)
           | (Inr rs, h2) \<Rightarrow> (Inr (r # rs), h2)))"

text \<open>Lines 175 to 184. Only an \<^verbatim>\<open>AttributeError\<close> of the primary path is caught; when
  the functions are not all callables the handler does nothing and \<^verbatim>\<open>out\<close> keeps
  the column labels.\<close>

definition apply_funcs ::
  "collaborators \<Rightarrow> view \<Rightarrow> pyval list \<Rightarrow> pyval list \<Rightarrow> heap \<Rightarrow> (error + outv) \<times> heap"
where
  "apply_funcs env val out fs h =
     (case fs of
        [] \<Rightarrow> (Inl (IndexError ''list index out of range''), h)
      | f0 # _ \<Rightarrow>
          if eq_str f0 ''describe'' then
            (case agg env val out f0 h of
               (Inl e, h1) \<Rightarrow> (Inl e, h1)
             | (Inr r, h1) \<Rightarrow> (Inr (OneFrame r), h1))
          else
            (case agg env val out (PList fs) h of
               (Inr r, h1) \<Rightarrow> (Inr (OneFrame r), h1)
             | (Inl (AttributeError m), h1) \<Rightarrow>
                 if list_all callable fs then
                   (case pipe_all env val out fs h1 of
                      (Inl e, h2) \<Rightarrow> (Inl e, h2)
                    | (Inr rs, h2) \<Rightarrow>
                        (Inr (if length rs = 1 then OneFrame (hd rs) else FrameList rs), h2))
                 else (Inr (Cols out), h1)
             | (Inl e, h1) \<Rightarrow> (Inl e, h1)))"

text \<open>Lines 185 to 190.\<close>

definition rename_out :: "pyval \<Rightarrow> outv \<Rightarrow> heap \<Rightarrow> (error + unit) \<times> heap" where
  "rename_out nm out h =
     (case out of
        OneFrame r \<Rightarrow>
          if truthy nm \<and> index_size (columns (objects h r)) = 1 then
            (case pd_Index_of nm of
               Inl e \<Rightarrow> (Inl e, h)
             | Inr idx \<Rightarrow> set_columns r idx h)
          else (Inr (), h)
      | _ \<Rightarrow> (Inr (), h))"

text \<open>Lines 191 to 194: what this request adds to \<^verbatim>\<open>aggs_\<close>.\<close>

fun out_items :: "outv \<Rightarrow> pyobj list" where
  "out_items (Cols vs) = map Label vs"
| "out_items (FrameList rs) = map DataFrame rs"
| "out_items (OneFrame r) = [DataFrame r]"

text \<open>The body of the loop over \<^verbatim>\<open>aggs\<close>.\<close>

definition exec_request ::
  "collaborators \<Rightarrow> nat \<Rightarrow> view \<Rightarrow> tupled \<Rightarrow> heap \<Rightarrow> (error + pyobj list) \<times> heap"
where
  "exec_request env df val ag h =
     (case resolve_columns env (col ag) (objects h df) of
        Inl e \<Rightarrow> (Inl e, h)
      | Inr out \<Rightarrow>
          if list_ex (\<lambda>f. eq_str f ''describe'') (func ag) \<and> length (func ag) > 1 then
            (Inl (ValueError
               ''Kindly pass `describe` as a single func in a separate tuple''), h)
          else
            (case apply_funcs env val out (func ag) h of
               (Inl e, h1) \<Rightarrow> (Inl e, h1)
             | (Inr out', h1) \<Rightarrow>
                 (case rename_out (name ag) out' h1 of
                    (Inl e, h2) \<Rightarrow> (Inl e, h2)
                  | (Inr _, h2) \<Rightarrow> (Inr (out_items out'), h2))))"

fun execute ::
  "collaborators \<Rightarrow> nat \<Rightarrow> view \<Rightarrow> tupled list \<Rightarrow> heap \<Rightarrow> (error + pyobj list) \<times> heap"
where
  "execute env df val [] h = (Inr [], h)"
| "execute env df val (ag # aggs) h =
     (case exec_request env df val ag h of
        (Inl e, h1) \<Rightarrow> (Inl e, h1)
      | (Inr items, h1) \<Rightarrow>
          (case execute env df val aggs h1 of
             (Inl e, h2) \<Rightarrow> (Inl e, h2)
           | (Inr rest, h2) \<Rightarrow> (Inr (items @ rest), h2)))"

section \<open>The result assembler (lines 195 to 216)\<close>

text \<open>\<^verbatim>\<open>frame.columns\<close>: a label has no such attribute.\<close>

fun item_columns :: "heap \<Rightarrow> pyobj \<Rightarrow> error + pd_index" where
  "item_columns h (DataFrame r) = Inr (columns (objects h r))"
| "item_columns h (Label v) = Inl (AttributeError ''columns'')"

fun all_nlevels :: "heap \<Rightarrow> pyobj list \<Rightarrow> error + nat list" where
  "all_nlevels h [] = Inr []"
| "all_nlevels h (x # xs) =
     (case item_columns h x of
        Inl e \<Rightarrow> Inl e
      | Inr c \<Rightarrow>
          (case all_nlevels h xs of
             Inl e \<Rightarrow> Inl e
           | Inr ns \<Rightarrow> Inr (nlevels c # ns)))"

text \<open>\<^verbatim>\<open>[frame.columns.get_level_values(n) for n in range(frame_nlevels)]\<close>.\<close>

fun level_values :: "pd_index \<Rightarrow> nat list \<Rightarrow> error + pyval list list" where
  "level_values c [] = Inr []"
| "level_values c (n # ns) =
     (case get_level_values c n of
        Inl e \<Rightarrow> Inl e
      | Inr l \<Rightarrow>
          (case level_values c ns of
             Inl e \<Rightarrow> Inl e
           | Inr ls \<Rightarrow> Inr (l # ls)))"

text \<open>Lines 201 to 210 for one element of \<^verbatim>\<open>aggs_\<close>.\<close>

definition pad_frame :: "nat \<Rightarrow> pyobj \<Rightarrow> heap \<Rightarrow> (error + unit) \<times> heap" where
  "pad_frame len_no_of_levels x h =
     (case item_columns h x of
        Inl e \<Rightarrow> (Inl e, h)
      | Inr c \<Rightarrow>
          if nlevels c < len_no_of_levels then
            let frame_nlevels = nlevels c;
                size = len_no_of_levels - frame_nlevels;
                extra = replicate size (replicate (index_size c) (PStr ''''))
            in
            (case level_values c [0..<frame_nlevels] of
               Inl e \<Rightarrow> (Inl e, h)
             | Inr cols \<Rightarrow>
                 (case MultiIndex_from_arrays (cols @ extra) of
                    Inl e \<Rightarrow> (Inl e, h)
                  | Inr idx \<Rightarrow>
                      (case x of
                         DataFrame r \<Rightarrow> set_columns r idx h
                       | Label v \<Rightarrow> (Inl (AttributeError ''columns''), h))))
          else (Inr (), h))"

text \<open>The loop of lines 200 to 211; the result is the list \<^verbatim>\<open>aggs\<close>.\<close>

fun pad_frames :: "nat \<Rightarrow> pyobj list \<Rightarrow> heap \<Rightarrow> (error + pyobj list) \<times> heap" where
  "pad_frames n [] h = (Inr [], h)"
| "pad_frames n (x # xs) h =
     (case pad_frame n x h of
        (Inl e, h1) \<Rightarrow> (Inl e, h1)
      | (Inr _, h1) \<Rightarrow>
          (case pad_frames n xs h1 of
             (Inl e, h2) \<Rightarrow> (Inl e, h2)
           | (Inr aggs, h2) \<Rightarrow> (Inr (x # aggs), h2)))"

text \<open>Lines 196 to 212: \<^verbatim>\<open>no_of_levels\<close> is the set of the depths, and the depth padded
  to is \<^verbatim>\<open>len(no_of_levels)\<close>, the number of distinct depths.\<close>

definition reconcile :: "pyobj list \<Rightarrow> heap \<Rightarrow> (error + pyobj list) \<times> heap" where
  "reconcile aggs' h =
     (case all_nlevels h aggs' of
        Inl e \<Rightarrow> (Inl e, h)
      | Inr ns \<Rightarrow>
          let no_of_levels = set ns in
          if card no_of_levels > 1 then pad_frames (card no_of_levels) aggs' h
          else (Inr aggs', h))"

text \<open>Lines 195 to 216.\<close>

definition assemble ::
  "collaborators \<Rightarrow> bool \<Rightarrow> pyobj list \<Rightarrow> heap \<Rightarrow> (error + pyobj) \<times> heap" where
  "assemble env by_is_true aggs' h =
     (if length aggs' > 1 then
        (case reconcile aggs' h of
           (Inl e, h1) \<Rightarrow> (Inl e, h1)
         | (Inr aggs, h1) \<Rightarrow>
             (case pd_concat env aggs (if by_is_true then 1 else 0) h1 of
                (Inl e, h2) \<Rightarrow> (Inl e, h2)
              | (Inr r, h2) \<Rightarrow> (Inr (DataFrame r), h2)))
      else
        (case aggs' of
           [] \<Rightarrow> (Inl (IndexError ''list index out of range''), h)
         | x # _ \<Rightarrow> (Inr x, h)))"

section \<open>summarise\<close>

text \<open>\<^verbatim>\<open>df.summarise(*args, by=by)\<close> on the heap \<open>h\<close>, the data frame being the object
  \<open>df\<close>: the value returned or the exception raised, and the heap afterwards.\<close>

definition summarise ::
  "collaborators \<Rightarrow> nat \<Rightarrow> pyval list \<Rightarrow> pyval \<Rightarrow> heap \<Rightarrow> (error + pyobj) \<times> heap" where
  "summarise env df args by h =
     (if args = [] then
        (Inl (ValueError ''Kindly provide at least one aggregation tuple.''), h)
      else
        (case normalise 0 args of
           Inl e \<Rightarrow> (Inl e, h)
         | Inr aggs \<Rightarrow>
             (case resolve_by env df by h of
                Inl e \<Rightarrow> (Inl e, h)
              | Inr (by_is_true, val) \<Rightarrow>
                  (case execute env df val aggs h of
                     (Inl e, h1) \<Rightarrow> (Inl e, h1)
                   | (Inr aggs', h1) \<Rightarrow> assemble env by_is_true aggs' h1))))"

section \<open>The error kinds of the specification\<close>

text \<open>The specification calls the errors of malformed requests \<open>InvalidArgument\<close>:
  the \<^verbatim>\<open>ValueError\<close>s of \<^verbatim>\<open>summarise\<close> and the failures of \<^verbatim>\<open>check\<close>.\<close>

fun is_InvalidArgument :: "error \<Rightarrow> bool" where
  "is_InvalidArgument (ValueError m) = True"
| "is_InvalidArgument (CheckError m) = True"
| "is_InvalidArgument e = False"

text \<open>A header is well formed when its level arrays are as long as one another, as
  every header pandas builds is.\<close>

fun wf_index :: "pd_index \<Rightarrow> bool" where
  "wf_index (Index vs) = True"
| "wf_index (MultiIndex ls) = (ls \<noteq> [] \<and> list_all (\<lambda>l. length l = length (hd ls)) ls)"

section \<open>Example collaborators\<close>

text \<open>
  A small stand-in for pandas, used to run \<^verbatim>\<open>summarise\<close> on concrete inputs. A new
  data frame gets the next free identity. Selection turns a list of labels into an
  array and returns a single label when the data frame has such a column. The primary
  aggregation path knows the functions \<^verbatim>\<open>mean\<close>, \<^verbatim>\<open>sum\<close> and \<^verbatim>\<open>describe\<close> and raises
  \<^verbatim>\<open>AttributeError\<close> for every other name and for the callables, which need the whole
  selection; on a data frame its header is the selected columns, on a \<^verbatim>\<open>GroupBy\<close>
  object the selected columns crossed with the functions. The meaning of the
  callables is the parameter \<open>call\<close>.
\<close>

definition new_frame :: "pd_index \<Rightarrow> heap \<Rightarrow> (error + nat) \<times> heap" where
  "new_frame c h =
     (Inr (next_id h),
      h\<lparr>objects := (objects h)(next_id h := \<lparr>columns = c, row_index = Index [], data = []\<rparr>),
        next_id := Suc (next_id h)\<rparr>)"

definition ex_get_index_labels :: "pyval \<Rightarrow> frame \<Rightarrow> error + labels" where
  "ex_get_index_labels sel f =
     (case sel of
        PList xs \<Rightarrow> Inr (Labels xs)
      | _ \<Rightarrow>
          if sel \<in> set (index_labels (columns f)) then Inr (OneLabel sel)
          else Inl (KeyError ''No match was returned for the provided selection.''))"

fun known_function :: "pyval \<Rightarrow> bool" where
  "known_function (PStr s) = (s = ''mean'' \<or> s = ''sum'' \<or> s = ''describe'')"
| "known_function v = False"

definition ex_agg :: "view \<Rightarrow> pyval list \<Rightarrow> pyval \<Rightarrow> heap \<Rightarrow> (error + nat) \<times> heap" where
  "ex_agg val out fn h =
     (let fs = (case fn of PList xs \<Rightarrow> xs | _ \<Rightarrow> [fn]) in
      if list_all known_function fs then
        (case val of
           DataFrameView r \<Rightarrow> new_frame (Index out) h
         | GroupByView r g \<Rightarrow>
             new_frame
               (MultiIndex [concat (map (\<lambda>c. replicate (length fs) c) out),
                            concat (replicate (length out) fs)]) h)
      else (Inl (AttributeError ''not a valid function''), h))"

definition ex_pipe ::
  "(nat \<Rightarrow> view \<Rightarrow> pyval list \<Rightarrow> heap \<Rightarrow> (error + nat) \<times> heap) \<Rightarrow>
   view \<Rightarrow> pyval list \<Rightarrow> pyval \<Rightarrow> heap \<Rightarrow> (error + nat) \<times> heap" where
  "ex_pipe call val out fn h =
     (case fn of
        PCallable k \<Rightarrow> call k val out h
      | _ \<Rightarrow> (Inl (TypeError ''object is not callable''), h))"

fun object_labels :: "heap \<Rightarrow> pyobj \<Rightarrow> pyval list" where
  "object_labels h (DataFrame r) = index_labels (columns (objects h r))"
| "object_labels h (Label v) = []"

definition ex_concat :: "pyobj list \<Rightarrow> nat \<Rightarrow> heap \<Rightarrow> (error + nat) \<times> heap" where
  "ex_concat objs axis h =
     (if axis = 1 then new_frame (Index (concat (map (object_labels h) objs))) h
      else new_frame (Index (remdups (concat (map (object_labels h) objs)))) h)"

definition ex_env ::
  "(nat \<Rightarrow> view \<Rightarrow> pyval list \<Rightarrow> heap \<Rightarrow> (error + nat) \<times> heap) \<Rightarrow> collaborators" where
  "ex_env call =
     \<lparr>get_index_labels = ex_get_index_labels,
      groupby = (\<lambda>f g. None),
      agg = ex_agg,
      pipe = ex_pipe call,
      pd_concat = ex_concat\<rparr>"

text \<open>
  Two families of callables. With \<open>fresh_calls\<close>, callable 0 returns a new data
  frame over the selected columns and every other callable a new data frame with
  a header of three levels. With \<open>alias_calls\<close>, every callable returns the very
  data frame its view is bound to (as \<^verbatim>\<open>lambda g: g.obj\<close> does on a \<^verbatim>\<open>GroupBy\<close> object).
\<close>

definition fresh_calls :: "nat \<Rightarrow> view \<Rightarrow> pyval list \<Rightarrow> heap \<Rightarrow> (error + nat) \<times> heap" where
  "fresh_calls k val out h =
     (if k = 0 then new_frame (Index out) h
      else new_frame
             (MultiIndex [out, replicate (length out) (PStr ''q''),
                          replicate (length out) (PStr ''r'')]) h)"


text \<open>A heap holding one data frame, object 0, with the columns \<^verbatim>\<open>a\<close> and \<^verbatim>\<open>b\<close>, and
  one holding a data frame with the single column \<^verbatim>\<open>a\<close>.\<close>

definition heap_ab :: heap where
  "heap_ab =
     \<lparr>objects = (\<lambda>r. \<lparr>columns = Index [PStr ''a'', PStr ''b''],
                       row_index = Index [PInt 0, PInt 1],
                       data = [[PInt 1, PInt 3], [PInt 2, PInt 4]]\<rparr>),
      next_id = 1\<rparr>"


section \<open>Notions used in the properties\<close>

text \<open>The level arrays of a header, and the header that lines 202 to 210 give a frame
  whose depth is below \<open>n\<close>: its own levels followed by levels of empty strings.\<close>

fun levels :: "pd_index \<Rightarrow> pyval list list" where
  "levels (Index vs) = [vs]"
| "levels (MultiIndex ls) = ls"

definition pad_index :: "nat \<Rightarrow> pd_index \<Rightarrow> pd_index" where
  "pad_index n c =
     (if nlevels c < n
      then MultiIndex (levels c @ replicate (n - nlevels c) (replicate (index_size c) (PStr '''')))
      else c)"



section \<open>Properties of the normaliser\<close>

lemma str_nat_small: "n < 10 \<Longrightarrow> str_nat n = [''0123456789'' ! n]"
  by (simp add: str_nat.simps)

text \<open>The printed position determines the position: two positions with the same
  decimal string are equal.\<close>

lemma digit_inj:
  "a < 10 \<Longrightarrow> b < 10 \<Longrightarrow> ''0123456789'' ! a = ''0123456789'' ! b \<Longrightarrow> a = (b::nat)"
proof -
  assume "a < 10" "b < 10" "''0123456789'' ! a = ''0123456789'' ! b"
  moreover have "distinct ''0123456789''" by simp
  ultimately show ?thesis by (simp add: nth_eq_iff_index_eq)
qed

lemma str_nat_nonempty: "str_nat n \<noteq> []"
  by (subst str_nat.simps) simp

lemma str_nat_inj: "str_nat n = str_nat m \<Longrightarrow> n = m"
proof (induction n arbitrary: m rule: less_induct)
  case (less n)
  show ?case
  proof (cases "n < 10")
    case True
    show ?thesis
    proof (cases "m < 10")
      case m: True
      with True less.prems show ?thesis
        by (simp add: str_nat_small digit_inj)
    next
      case False
      with True less.prems str_nat_nonempty [of "m div 10"] show ?thesis
        by (subst (asm) (2) str_nat.simps) (simp add: str_nat_small)
    qed
  next
    case False
    show ?thesis
    proof (cases "m < 10")
      case True
      with False less.prems str_nat_nonempty [of "n div 10"] show ?thesis
        by (subst (asm) (1) str_nat.simps) (simp add: str_nat_small)
    next
      case m: False
      from False m less.prems
      have e: "str_nat (n div 10) @ [''0123456789'' ! (n mod 10)] =
               str_nat (m div 10) @ [''0123456789'' ! (m mod 10)]"
        by (subst (asm) (1 2) str_nat.simps) simp
      then have "str_nat (n div 10) = str_nat (m div 10)"
        and d: "''0123456789'' ! (n mod 10) = ''0123456789'' ! (m mod 10)" by simp_all
      moreover have "n div 10 < n" using False by simp
      ultimately have "n div 10 = m div 10" using less.IH by blast
      moreover have "n mod 10 = m mod 10" using d by (intro digit_inj) simp_all
      ultimately show ?thesis by (metis div_mult_mod_eq)
    qed
  qed
qed

lemma check_InvalidArgument: "check v x ts = Inl e \<Longrightarrow> is_InvalidArgument e"
  by (auto simp: check_def split: if_splits)

lemma normalise_arg_InvalidArgument: "normalise_arg num arg = Inl e \<Longrightarrow> is_InvalidArgument e"
  by (auto simp: normalise_arg_def Let_def check_def split: if_splits sum.splits)

lemma normalise_InvalidArgument: "normalise num args = Inl e \<Longrightarrow> is_InvalidArgument e"
  by (induction args arbitrary: num) (auto split: sum.splits dest: normalise_arg_InvalidArgument)

lemma normalise_append:
  "normalise num (xs @ ys) =
     (case normalise num xs of
        Inl e \<Rightarrow> Inl e
      | Inr as \<Rightarrow>
          (case normalise (num + length xs) ys of
             Inl e \<Rightarrow> Inl e
           | Inr bs \<Rightarrow> Inr (as @ bs)))"
  by (induction xs arbitrary: num) (auto split: sum.splits)

lemma normalise_length: "normalise num args = Inr aggs \<Longrightarrow> length aggs = length args"
  by (induction args arbitrary: num aggs) (auto split: sum.splits)

lemma normalise_nth:
  "normalise num args = Inr aggs \<Longrightarrow> i < length args \<Longrightarrow>
   normalise_arg (num + i) (args ! i) = Inr (aggs ! i)"
proof (induction args arbitrary: num aggs i)
  case Nil
  then show ?case by simp
next
  case (Cons a args)
  from Cons.prems(1) obtain ag rest where
    ag: "normalise_arg num a = Inr ag" and rest: "normalise (Suc num) args = Inr rest"
    and aggs: "aggs = ag # rest"
    by (auto split: sum.splits)
  show ?case
  proof (cases i)
    case 0
    with ag aggs show ?thesis by simp
  next
    case (Suc k)
    with Cons.prems(2) have "k < length args" by simp
    from Cons.IH [OF rest this] Suc aggs show ?thesis by simp
  qed
qed

lemma normalise_fails:
  "i < length args \<Longrightarrow> normalise_arg (num + i) (args ! i) = Inl e \<Longrightarrow>
   \<exists>e'. normalise num args = Inl e'"
  using normalise_nth [of num args _ i] by (cases "normalise num args") auto

lemma normalise_first_failure:
  "i < length args \<Longrightarrow> normalise_arg (num + i) (args ! i) = Inl e \<Longrightarrow>
   \<forall>j<i. \<exists>ag. normalise_arg (num + j) (args ! j) = Inr ag \<Longrightarrow>
   normalise num args = Inl e"
proof (induction args arbitrary: num i)
  case Nil
  then show ?case by simp
next
  case (Cons a args)
  show ?case
  proof (cases i)
    case 0
    with Cons.prems show ?thesis by simp
  next
    case (Suc k)
    from Cons.prems(3) Suc have "\<exists>ag. normalise_arg num a = Inr ag"
      by (metis add.right_neutral nth_Cons_0 zero_less_Suc)
    moreover have "normalise (Suc num) args = Inl e"
    proof (rule Cons.IH [of k])
      show "k < length args" using Cons.prems(1) Suc by simp
      show "normalise_arg (Suc num + k) (args ! k) = Inl e" using Cons.prems(2) Suc by simp
      show "\<forall>j<k. \<exists>ag. normalise_arg (Suc num + j) (args ! j) = Inr ag"
      proof (intro allI impI)
        fix j assume "j < k"
        then have "Suc j < i" using Suc by simp
        with Cons.prems(3) have "\<exists>ag. normalise_arg (num + Suc j) ((a # args) ! Suc j) = Inr ag"
          by blast
        then show "\<exists>ag. normalise_arg (Suc num + j) (args ! j) = Inr ag" by simp
      qed
    qed
    ultimately show ?thesis by auto
  qed
qed

lemma arity_error:
  "length xs < 2 \<or> 3 < length xs \<Longrightarrow>
   normalise_arg num (PTuple xs) =
     Inl (ValueError (''The tuple argument at position '' @ str_nat num @
       (if length xs < 2 then '' should have at least a column and an aggregation function.''
        else '' should be a maximum length of 3.'')))"
  by (auto simp: normalise_arg_def check_def)

lemma arity_ok:
  "length xs = 2 \<or> length xs = 3 \<Longrightarrow> normalise_arg num (PTuple xs) \<noteq> Inl (ValueError m)"
  by (auto simp: normalise_arg_def check_def Let_def split: sum.splits if_splits)

text \<open>
  Claim C7, as amended. A tuple at position \<open>i\<close> with fewer than two or more than three
  elements makes \<^verbatim>\<open>summarise\<close> fail with an invalid-argument error and leaves the heap
  as it was. The message is the one of the first tuple that fails normalisation: it
  names position \<open>i\<close> when every tuple before \<open>i\<close> passes normalisation (it holds the
  decimal string of \<open>i\<close>, which determines \<open>i\<close> by \<open>str_nat_inj\<close>). A tuple of two
  or three elements never raises the \<^verbatim>\<open>ValueError\<close> of the arity check.
\<close>

theorem C7_arity:
  "i < length args \<Longrightarrow> args ! i = PTuple xs \<Longrightarrow>
   ((length xs < 2 \<or> 3 < length xs) \<longrightarrow>
      (\<exists>e. summarise env df args by h = (Inl e, h) \<and> is_InvalidArgument e) \<and>
      ((\<forall>j<i. \<exists>ag. normalise_arg j (args ! j) = Inr ag) \<longrightarrow>
         summarise env df args by h =
           (Inl (ValueError (''The tuple argument at position '' @ str_nat i @
              (if length xs < 2
               then '' should have at least a column and an aggregation function.''
               else '' should be a maximum length of 3.''))), h))) \<and>
   ((length xs = 2 \<or> length xs = 3) \<longrightarrow>
      (\<forall>m. normalise_arg i (PTuple xs) \<noteq> Inl (ValueError m)))"
proof (intro conjI impI allI)
  assume i: "i < length args" and a: "args ! i = PTuple xs"
    and bad: "length xs < 2 \<or> 3 < length xs"
  from i have ne: "args \<noteq> []" by auto
  from arity_error [OF bad, of i] a
  have f: "normalise_arg (0 + i) (args ! i) =
     Inl (ValueError (''The tuple argument at position '' @ str_nat i @
       (if length xs < 2 then '' should have at least a column and an aggregation function.''
        else '' should be a maximum length of 3.'')))"
    by simp
  from normalise_fails [OF i f] obtain e' where e': "normalise 0 args = Inl e'" by blast
  with ne show "\<exists>e. summarise env df args by h = (Inl e, h) \<and> is_InvalidArgument e"
    by (auto simp: summarise_def dest: normalise_InvalidArgument)
  assume "\<forall>j<i. \<exists>ag. normalise_arg j (args ! j) = Inr ag"
  then have "\<forall>j<i. \<exists>ag. normalise_arg (0 + j) (args ! j) = Inr ag" by simp
  from normalise_first_failure [OF i f this] ne
  show "summarise env df args by h =
           (Inl (ValueError (''The tuple argument at position '' @ str_nat i @
              (if length xs < 2
               then '' should have at least a column and an aggregation function.''
               else '' should be a maximum length of 3.''))), h)"
    by (simp add: summarise_def)
next
  fix m
  assume "length xs = 2 \<or> length xs = 3"
  then show "normalise_arg i (PTuple xs) \<noteq> Inl (ValueError m)"
    by (rule arity_ok)
qed

theorem C7_arity_witness:
  "summarise (ex_env fresh_calls) 0
     [PTuple [PStr ''a'', PStr ''mean''], PTuple [PStr ''a'']] PNone heap_ab =
     (Inl (ValueError ''The tuple argument at position 1 should have at least a column and an aggregation function.''), heap_ab) \<and>
   normalise_arg 0 (PTuple [PStr ''a'', PStr ''mean'']) \<noteq> Inl (ValueError [])"
proof -
  let ?args = "[PTuple [PStr ''a'', PStr ''mean''], PTuple [PStr ''a'']]"
  have i: "1 < length ?args" by simp
  have a: "?args ! 1 = PTuple [PStr ''a'']" by simp
  have b: "length [PStr ''a''] < 2 \<or> 3 < length [PStr ''a'']" by simp
  have p: "\<forall>j<1. \<exists>ag. normalise_arg j (?args ! j) = Inr ag"
    by (simp add: normalise_arg_def check_def)
  have i0: "0 < length ?args" by simp
  have a0: "?args ! 0 = PTuple [PStr ''a'', PStr ''mean'']" by simp
  show ?thesis
    using C7_arity [OF i a, of "ex_env fresh_calls" 0 PNone heap_ab] b p
      C7_arity [OF i0 a0, of "ex_env fresh_calls" 0 PNone heap_ab]
    by (simp add: str_nat_small)
qed

text \<open>
  Claim C7 as stated fails: with two empty tuples, the tuple at position 1 has arity
  0, and the error names position 0, not position 1.
\<close>

theorem C7_counterexample:
  "[PTuple [], PTuple []] ! 1 = PTuple [] \<and>
   fst (summarise (ex_env fresh_calls) 0 [PTuple [], PTuple []] PNone heap_ab) =
     Inl (ValueError ''The tuple argument at position 0 should have at least a column and an aggregation function.'') \<and>
   fst (summarise (ex_env fresh_calls) 0 [PTuple [], PTuple []] PNone heap_ab) \<noteq>
     Inl (ValueError ''The tuple argument at position 1 should have at least a column and an aggregation function.'')"
  by (simp add: summarise_def normalise_arg_def check_def str_nat_small)

text \<open>
  Claim C3, as amended. For a tuple of two or three elements at position \<open>num\<close>, the
  normaliser checks the \<^verbatim>\<open>func\<close> element as a whole. When it is neither a string, a
  callable nor a list, normalisation fails with the check's error, which names the
  position. When it is a list, the list becomes the request's functions whatever its
  elements are: normalisation then fails only on a name that is truthy and not
  hashable.
\<close>

theorem C3_func_check:
  "length xs = 2 \<or> length xs = 3 \<Longrightarrow>
   (\<not> is_str (xs ! 1) \<and> \<not> callable (xs ! 1) \<and> \<not> is_list (xs ! 1) \<longrightarrow>
      normalise_arg num (PTuple xs) =
        Inl (CheckError (''func in tuple argument at position '' @ str_nat num))) \<and>
   (\<forall>fs. xs ! 1 = PList fs \<longrightarrow>
      (case normalise_arg num (PTuple xs) of
         Inr ag \<Rightarrow> func ag = fs \<and> col ag = xs ! 0
       | Inl e \<Rightarrow> truthy (xs ! 2) \<and> \<not> is_Hashable (xs ! 2) \<and> length xs = 3 \<and>
           e = CheckError (''name in tuple argument at position '' @ str_nat num)))"
  by (auto simp: normalise_arg_def check_def Let_def split: sum.splits if_splits)

theorem C3_func_check_witness:
  "normalise_arg 4 (PTuple [PStr ''a'', PInt 5]) =
     Inl (CheckError ''func in tuple argument at position 4'') \<and>
   func (projr (normalise_arg 4 (PTuple [PStr ''a'', PList [PInt 5]]))) = [PInt 5]"
proof -
  have l: "length [PStr ''a'', PInt 5] = 2 \<or> length [PStr ''a'', PInt 5] = 3" by simp
  have l': "length [PStr ''a'', PList [PInt 5]] = 2 \<or> length [PStr ''a'', PList [PInt 5]] = 3"
    by simp
  have r: "normalise_arg 4 (PTuple [PStr ''a'', PList [PInt 5]]) =
      Inr \<lparr>col = PStr ''a'', func = [PInt 5], name = PNone\<rparr>"
    by (simp add: normalise_arg_def check_def)
  show ?thesis
    using C3_func_check [OF l, of 4] C3_func_check [OF l', of 4] r
    by (simp add: str_nat_small)
qed

text \<open>
  Claim C3 as stated fails: a list holding the integer 1, neither a string nor a
  callable, passes normalisation.
\<close>

theorem C3_counterexample:
  "\<not> is_str (PInt 1) \<and> \<not> callable (PInt 1) \<and>
   normalise 0 [PTuple [PStr ''a'', PList [PInt 1]]] =
     Inr [\<lparr>col = PStr ''a'', func = [PInt 1], name = PNone\<rparr>]"
  by (simp add: normalise_arg_def check_def)

section \<open>Properties of the executor\<close>

lemma execute_append:
  "execute env df val (xs @ ys) h =
     (case execute env df val xs h of
        (Inl e, h1) \<Rightarrow> (Inl e, h1)
      | (Inr items, h1) \<Rightarrow>
          (case execute env df val ys h1 of
             (Inl e, h2) \<Rightarrow> (Inl e, h2)
           | (Inr rest, h2) \<Rightarrow> (Inr (items @ rest), h2)))"
  by (induction xs arbitrary: h) (auto split: prod.splits sum.splits)

lemma exec_request_describe:
  "list_ex (\<lambda>f. eq_str f ''describe'') (func ag) \<Longrightarrow> 1 < length (func ag) \<Longrightarrow>
   exec_request env df val ag h =
     (case resolve_columns env (col ag) (objects h df) of
        Inl e \<Rightarrow> (Inl e, h)
      | Inr out \<Rightarrow>
          (Inl (ValueError ''Kindly pass `describe` as a single func in a separate tuple''), h))"
  by (simp add: exec_request_def split: sum.splits)

lemma normalise_arg_list:
  "normalise_arg num (PTuple (c # PList fs # rest)) = Inr ag \<Longrightarrow> func ag = fs \<and> col ag = c"
  by (auto simp: normalise_arg_def check_def Let_def split: sum.splits if_splits)

lemma execute_describe:
  assumes "i < length aggs"
    and "list_ex (\<lambda>f. eq_str f ''describe'') (func (aggs ! i))"
    and "1 < length (func (aggs ! i))"
  shows "execute env df val aggs h =
     (case execute env df val (take i aggs) h of
        (Inl e, h1) \<Rightarrow> (Inl e, h1)
      | (Inr items, h1) \<Rightarrow>
          (case resolve_columns env (col (aggs ! i)) (objects h1 df) of
             Inl e \<Rightarrow> (Inl e, h1)
           | Inr out \<Rightarrow>
               (Inl (ValueError
                  ''Kindly pass `describe` as a single func in a separate tuple''), h1)))"
proof -
  from assms(1) have "aggs = take i aggs @ (aggs ! i # drop (Suc i) aggs)"
    by (simp add: id_take_nth_drop)
  then have "execute env df val aggs h =
      execute env df val (take i aggs @ (aggs ! i # drop (Suc i) aggs)) h"
    by simp
  also have "\<dots> =
     (case execute env df val (take i aggs) h of
        (Inl e, h1) \<Rightarrow> (Inl e, h1)
      | (Inr items, h1) \<Rightarrow>
          (case resolve_columns env (col (aggs ! i)) (objects h1 df) of
             Inl e \<Rightarrow> (Inl e, h1)
           | Inr out \<Rightarrow>
               (Inl (ValueError
                  ''Kindly pass `describe` as a single func in a separate tuple''), h1)))"
    by (simp add: execute_append exec_request_describe [OF assms(2,3)]
        split: prod.splits sum.splits)
  finally show ?thesis .
qed

text \<open>
  Claim C6, as amended. When the tuple at position \<open>i\<close> gives a list of more than one
  function that contains \<^verbatim>\<open>"describe"\<close>, \<^verbatim>\<open>summarise\<close> fails. The error is the
  \<^verbatim>\<open>ValueError\<close> of the describe check when that check is reached: when
  normalisation and grouping succeed, the requests before \<open>i\<close> execute without error
  and the columns of request \<open>i\<close> resolve. Otherwise the earlier failure is raised.
\<close>

theorem C6_describe:
  "i < length args \<Longrightarrow> args ! i = PTuple (c # PList fs # rest) \<Longrightarrow>
   list_ex (\<lambda>f. eq_str f ''describe'') fs \<Longrightarrow> 1 < length fs \<Longrightarrow>
   (\<exists>e h'. summarise env df args by h = (Inl e, h')) \<and>
   (\<forall>aggs b val items h1 out.
      normalise 0 args = Inr aggs \<and> resolve_by env df by h = Inr (b, val) \<and>
      execute env df val (take i aggs) h = (Inr items, h1) \<and>
      resolve_columns env (col (aggs ! i)) (objects h1 df) = Inr out \<longrightarrow>
      summarise env df args by h =
        (Inl (ValueError ''Kindly pass `describe` as a single func in a separate tuple''),
         h1))"
proof -
  assume i: "i < length args" and a: "args ! i = PTuple (c # PList fs # rest)"
    and d: "list_ex (\<lambda>f. eq_str f ''describe'') fs" and l: "1 < length fs"
  from i have ne: "args \<noteq> []" by auto
  have key: "execute env df val aggs h0 =
     (case execute env df val (take i aggs) h0 of
        (Inl e, h1) \<Rightarrow> (Inl e, h1)
      | (Inr items, h1) \<Rightarrow>
          (case resolve_columns env (col (aggs ! i)) (objects h1 df) of
             Inl e \<Rightarrow> (Inl e, h1)
           | Inr out \<Rightarrow>
               (Inl (ValueError
                  ''Kindly pass `describe` as a single func in a separate tuple''), h1)))"
    if n: "normalise 0 args = Inr aggs" for aggs val h0
  proof -
    from normalise_nth [OF n i] a
    have "normalise_arg i (PTuple (c # PList fs # rest)) = Inr (aggs ! i)" by simp
    then have f: "func (aggs ! i) = fs" by (simp add: normalise_arg_list)
    from normalise_length [OF n] i have "i < length aggs" by simp
    then show ?thesis using d l f by (intro execute_describe) simp_all
  qed
  have "\<exists>e h'. summarise env df args by h = (Inl e, h')"
  proof (cases "normalise 0 args")
    case (Inl e)
    with ne show ?thesis by (simp add: summarise_def)
  next
    case (Inr aggs)
    show ?thesis
    proof (cases "resolve_by env df by h")
      case (Inl e)
      with Inr ne show ?thesis by (simp add: summarise_def)
    next
      case r: (Inr bv)
      obtain b val where bv: "bv = (b, val)" by (cases bv)
      from key [OF Inr, of val h] Inr r bv ne show ?thesis
        by (auto simp: summarise_def split: prod.splits sum.splits)
    qed
  qed
  moreover have "summarise env df args by h =
        (Inl (ValueError ''Kindly pass `describe` as a single func in a separate tuple''),
         h1)"
    if "normalise 0 args = Inr aggs" "resolve_by env df by h = Inr (b, val)"
      "execute env df val (take i aggs) h = (Inr items, h1)"
      "resolve_columns env (col (aggs ! i)) (objects h1 df) = Inr out"
    for aggs b val items h1 out
    using that key [OF that(1), of val h] ne by (simp add: summarise_def)
  ultimately show ?thesis by blast
qed

theorem C6_describe_witness:
  "summarise (ex_env fresh_calls) 0
     [PTuple [PStr ''a'', PList [PStr ''describe'', PStr ''mean'']]] PNone heap_ab =
     (Inl (ValueError ''Kindly pass `describe` as a single func in a separate tuple''),
      heap_ab)"
proof -
  let ?args = "[PTuple [PStr ''a'', PList [PStr ''describe'', PStr ''mean'']]]"
  have i: "0 < length ?args" by simp
  have a: "?args ! 0 = PTuple (PStr ''a'' # PList [PStr ''describe'', PStr ''mean''] # [])"
    by simp
  have d: "list_ex (\<lambda>f. eq_str f ''describe'') [PStr ''describe'', PStr ''mean'']" by simp
  have l: "1 < length [PStr ''describe'', PStr ''mean'']" by simp
  have n: "normalise 0 ?args =
      Inr [\<lparr>col = PStr ''a'', func = [PStr ''describe'', PStr ''mean''], name = PNone\<rparr>]"
    by (simp add: normalise_arg_def check_def)
  have r: "resolve_by (ex_env fresh_calls) 0 PNone heap_ab = Inr (False, DataFrameView 0)"
    by (simp add: resolve_by_def)
  have c: "resolve_columns (ex_env fresh_calls) (PStr ''a'') (objects heap_ab 0) =
      Inr [PStr ''a'']"
    by (simp add: resolve_columns_def ex_env_def ex_get_index_labels_def heap_ab_def)
  have e: "execute (ex_env fresh_calls) 0 (DataFrameView 0)
      (take 0 [\<lparr>col = PStr ''a'', func = [PStr ''describe'', PStr ''mean''], name = PNone\<rparr>])
      heap_ab = (Inr [], heap_ab)"
    by simp
  have c': "resolve_columns (ex_env fresh_calls)
      (col ([\<lparr>col = PStr ''a'', func = [PStr ''describe'', PStr ''mean''], name = PNone\<rparr>] ! 0))
      (objects heap_ab 0) = Inr [PStr ''a'']"
    using c by simp
  from C6_describe [OF i a d l, of "ex_env fresh_calls" 0 PNone heap_ab]
  have "\<forall>aggs b val items h1 out.
      normalise 0 ?args = Inr aggs \<and>
      resolve_by (ex_env fresh_calls) 0 PNone heap_ab = Inr (b, val) \<and>
      execute (ex_env fresh_calls) 0 val (take 0 aggs) heap_ab = (Inr items, h1) \<and>
      resolve_columns (ex_env fresh_calls) (col (aggs ! 0)) (objects h1 0) = Inr out \<longrightarrow>
      summarise (ex_env fresh_calls) 0 ?args PNone heap_ab =
        (Inl (ValueError ''Kindly pass `describe` as a single func in a separate tuple''),
         h1)"
    by (rule conjunct2)
  from this [rule_format, OF conjI [OF n conjI [OF r conjI [OF e c']]]]
  show ?thesis .
qed

text \<open>
  Claim C6 as stated fails: when the column of the request does not resolve, the
  \<^verbatim>\<open>KeyError\<close> of the selection is raised before the describe check of line 171.
\<close>

theorem C6_counterexample:
  "fst (summarise (ex_env fresh_calls) 0
          [PTuple [PStr ''zzz'', PList [PStr ''describe'', PStr ''mean'']]] PNone heap_ab) =
     Inl (KeyError ''No match was returned for the provided selection.'') \<and>
   \<not> is_InvalidArgument (KeyError ''No match was returned for the provided selection.'')"
  by (simp add: summarise_def normalise_arg_def check_def resolve_by_def exec_request_def
      resolve_columns_def ex_env_def ex_get_index_labels_def heap_ab_def)

lemma rename_out_falsy: "\<not> truthy nm \<Longrightarrow> rename_out nm out h = (Inr (), h)"
  by (simp add: rename_out_def split: outv.splits)

lemma exec_request_falsy_name:
  "\<not> truthy n \<Longrightarrow>
   exec_request env df val (ag\<lparr>name := n\<rparr>) h = exec_request env df val (ag\<lparr>name := PNone\<rparr>) h"
  by (simp add: exec_request_def rename_out_falsy cong: sum.case_cong prod.case_cong if_cong)

lemma execute_falsy_name:
  "\<not> truthy n \<Longrightarrow>
   execute env df val (as @ ag\<lparr>name := n\<rparr> # bs) h =
   execute env df val (as @ ag\<lparr>name := PNone\<rparr> # bs) h"
  using exec_request_falsy_name [of n env df val ag]
  by (simp add: execute_append cong: sum.case_cong prod.case_cong)

lemma normalise_arg_falsy_name:
  "\<not> truthy n \<Longrightarrow>
   normalise_arg num (PTuple [c, f, n]) =
     (case normalise_arg num (PTuple [c, f]) of
        Inl e \<Rightarrow> Inl e
      | Inr ag \<Rightarrow> Inr (ag\<lparr>name := n\<rparr>))"
  by (simp add: normalise_arg_def check_def Let_def)

lemma normalise_arg_no_name:
  "normalise_arg num (PTuple [c, f]) = Inr ag \<Longrightarrow> ag\<lparr>name := PNone\<rparr> = ag"
  by (auto simp: normalise_arg_def check_def Let_def split: if_splits)

text \<open>
  Claim C9. A tuple whose third element is present but falsy behaves as the tuple
  without it: the name is not checked (an empty list, which is not hashable, passes)
  and nothing is renamed, so \<^verbatim>\<open>summarise\<close> returns the same value and leaves the same
  heap as for the two-element tuple, whatever the other requests, the data frame
  and the grouping are.
\<close>

theorem C9_falsy_name:
  "\<not> truthy n \<Longrightarrow>
   summarise env df (pre @ PTuple [c, f, n] # post) by h =
   summarise env df (pre @ PTuple [c, f] # post) by h"
proof -
  assume n: "\<not> truthy n"
  show ?thesis
  proof (cases "normalise 0 pre")
    case (Inl e)
    then show ?thesis by (simp add: summarise_def normalise_append)
  next
    case pre: (Inr as)
    show ?thesis
    proof (cases "normalise_arg (length pre) (PTuple [c, f])")
      case (Inl e)
      with pre n show ?thesis
        by (simp add: summarise_def normalise_append normalise_arg_falsy_name)
    next
      case ag: (Inr ag)
      show ?thesis
      proof (cases "normalise (Suc (length pre)) post")
        case (Inl e)
        with pre ag n show ?thesis
          by (simp add: summarise_def normalise_append normalise_arg_falsy_name)
      next
        case post: (Inr bs)
        have l: "normalise 0 (pre @ PTuple [c, f, n] # post) = Inr (as @ ag\<lparr>name := n\<rparr> # bs)"
          using pre ag post n by (simp add: normalise_append normalise_arg_falsy_name)
        have r: "normalise 0 (pre @ PTuple [c, f] # post) = Inr (as @ ag\<lparr>name := PNone\<rparr> # bs)"
          using pre ag post normalise_arg_no_name [OF ag] by (simp add: normalise_append)
        show ?thesis
          by (simp add: summarise_def l r execute_falsy_name [OF n]
              cong: sum.case_cong prod.case_cong)
      qed
    qed
  qed
qed

theorem C9_falsy_name_witness:
  "summarise (ex_env fresh_calls) 0 [PTuple [PStr ''a'', PStr ''mean'', PList []]] PNone heap_ab =
   summarise (ex_env fresh_calls) 0 [PTuple [PStr ''a'', PStr ''mean'']] PNone heap_ab \<and>
   fst (summarise (ex_env fresh_calls) 0 [PTuple [PStr ''a'', PStr ''mean'', PStr '''']] PNone
          heap_ab) = Inr (DataFrame 1) \<and>
   columns (objects (snd (summarise (ex_env fresh_calls) 0
      [PTuple [PStr ''a'', PStr ''mean'', PStr '''']] PNone heap_ab)) 1) = Index [PStr ''a'']"
proof -
  have t: "\<not> truthy (PList [])" by simp
  have t': "\<not> truthy (PStr '''')" by simp
  have e: "summarise (ex_env fresh_calls) 0 [PTuple [PStr ''a'', PStr ''mean'']] PNone heap_ab =
    (Inr (DataFrame 1),
     heap_ab\<lparr>objects := (objects heap_ab)
        (1 := \<lparr>columns = Index [PStr ''a''], row_index = Index [], data = []\<rparr>),
       next_id := 2\<rparr>)"
    by (simp add: summarise_def normalise_arg_def check_def resolve_by_def exec_request_def
        resolve_columns_def ex_env_def ex_get_index_labels_def heap_ab_def apply_funcs_def
        ex_agg_def rename_out_def assemble_def new_frame_def)
  show ?thesis
    using C9_falsy_name [OF t, of "ex_env fresh_calls" 0 "[]" "PStr ''a''" "PStr ''mean''" "[]"
        PNone heap_ab]
      C9_falsy_name [OF t', of "ex_env fresh_calls" 0 "[]" "PStr ''a''" "PStr ''mean''" "[]"
        PNone heap_ab] e
    by simp
qed

section \<open>Properties of grouping\<close>

lemma resolve_by_falsy: "\<not> truthy by \<Longrightarrow> resolve_by env df by h = Inr (False, DataFrameView df)"
  by (simp add: resolve_by_def)

lemma resolve_by_truthy:
  "resolve_by env df by h = Inr (b, val) \<Longrightarrow> b = truthy by"
  by (auto simp: resolve_by_def split: if_splits pyval.splits option.splits sum.splits)

lemma pipe_all_groupby [simp]:
  "pipe_all (env\<lparr>groupby := g\<rparr>) val out fs h = pipe_all env val out fs h"
  by (induction fs arbitrary: h) (simp_all cong: prod.case_cong sum.case_cong)

lemma apply_funcs_groupby [simp]:
  "apply_funcs (env\<lparr>groupby := g\<rparr>) val out fs h = apply_funcs env val out fs h"
  by (simp add: apply_funcs_def
      cong: list.case_cong prod.case_cong sum.case_cong error.case_cong if_cong)

lemma exec_request_groupby [simp]:
  "exec_request (env\<lparr>groupby := g\<rparr>) df val ag h = exec_request env df val ag h"
  by (simp add: exec_request_def resolve_columns_def
      cong: prod.case_cong sum.case_cong if_cong)

lemma execute_groupby [simp]:
  "execute (env\<lparr>groupby := g\<rparr>) df val aggs h = execute env df val aggs h"
  by (induction aggs arbitrary: h) (simp_all cong: prod.case_cong sum.case_cong)

lemma assemble_groupby [simp]:
  "assemble (env\<lparr>groupby := g\<rparr>) b items h = assemble env b items h"
  by (simp add: assemble_def cong: prod.case_cong sum.case_cong if_cong)

text \<open>
  Claim C10. When \<^verbatim>\<open>by\<close> is falsy, \<^verbatim>\<open>by_is_true\<close> is false and \<^verbatim>\<open>val\<close> is the data
  frame itself; \<^verbatim>\<open>summarise\<close> returns what it returns for \<^verbatim>\<open>by=None\<close>; \<^verbatim>\<open>groupby\<close> is
  never called, so the result does not depend on it; and more than one partial
  result is concatenated along axis 0.
\<close>

theorem C10_falsy_by:
  "\<not> truthy by \<Longrightarrow>
   resolve_by env df by h = Inr (False, DataFrameView df) \<and>
   summarise env df args by h = summarise env df args PNone h \<and>
   summarise env df args by h = summarise (env\<lparr>groupby := g\<rparr>) df args by h \<and>
   (\<forall>aggs items h1 items' h2.
      args \<noteq> [] \<and> normalise 0 args = Inr aggs \<and>
      execute env df (DataFrameView df) aggs h = (Inr items, h1) \<and> 1 < length items \<and>
      reconcile items h1 = (Inr items', h2) \<longrightarrow>
      summarise env df args by h =
        (case pd_concat env items' 0 h2 of
           (Inl e, h3) \<Rightarrow> (Inl e, h3)
         | (Inr r, h3) \<Rightarrow> (Inr (DataFrame r), h3)))"
proof (intro conjI allI impI)
  assume f: "\<not> truthy by"
  show "resolve_by env df by h = Inr (False, DataFrameView df)"
    using f by (rule resolve_by_falsy)
  show "summarise env df args by h = summarise env df args PNone h"
    using f by (simp add: summarise_def resolve_by_falsy split: sum.splits)
  show "summarise env df args by h = summarise (env\<lparr>groupby := g\<rparr>) df args by h"
    using f by (simp add: summarise_def resolve_by_falsy split: sum.splits prod.splits)
  fix aggs items h1 items' h2
  assume "args \<noteq> [] \<and> normalise 0 args = Inr aggs \<and>
      execute env df (DataFrameView df) aggs h = (Inr items, h1) \<and> 1 < length items \<and>
      reconcile items h1 = (Inr items', h2)"
  then show "summarise env df args by h =
        (case pd_concat env items' 0 h2 of
           (Inl e, h3) \<Rightarrow> (Inl e, h3)
         | (Inr r, h3) \<Rightarrow> (Inr (DataFrame r), h3))"
    using f by (simp add: summarise_def resolve_by_falsy assemble_def split: sum.splits)
qed

theorem C10_falsy_by_witness:
  "resolve_by (ex_env fresh_calls) 0 (PList []) heap_ab = Inr (False, DataFrameView 0) \<and>
   summarise (ex_env fresh_calls) 0
     [PTuple [PStr ''a'', PStr ''mean''], PTuple [PStr ''b'', PStr ''sum'']] (PList []) heap_ab =
   summarise (ex_env fresh_calls) 0
     [PTuple [PStr ''a'', PStr ''mean''], PTuple [PStr ''b'', PStr ''sum'']] PNone heap_ab \<and>
   fst (summarise (ex_env fresh_calls) 0
     [PTuple [PStr ''a'', PStr ''mean''], PTuple [PStr ''b'', PStr ''sum'']] (PDict []) heap_ab) =
     Inr (DataFrame 3)"
proof -
  have t: "\<not> truthy (PList [])" by simp
  have t': "\<not> truthy (PDict [])" by simp
  have e: "fst (summarise (ex_env fresh_calls) 0
     [PTuple [PStr ''a'', PStr ''mean''], PTuple [PStr ''b'', PStr ''sum'']] PNone heap_ab) =
     Inr (DataFrame 3)"
    by code_simp
  show ?thesis
    using C10_falsy_by [OF t, of "ex_env fresh_calls" 0 heap_ab
        "[PTuple [PStr ''a'', PStr ''mean''], PTuple [PStr ''b'', PStr ''sum'']]"]
      C10_falsy_by [OF t', of "ex_env fresh_calls" 0 heap_ab
        "[PTuple [PStr ''a'', PStr ''mean''], PTuple [PStr ''b'', PStr ''sum'']]"] e
    by simp
qed

section \<open>Properties of renaming\<close>






section \<open>Properties of the assembler\<close>

lemma all_nlevels_frames:
  "all_nlevels h (map DataFrame rs) = Inr (map (\<lambda>r. nlevels (columns (objects h r))) rs)"
  by (induction rs) simp_all

lemma length_levels: "length (levels c) = nlevels c"
  by (cases c) simp_all

lemma get_level_values_ok: "n < nlevels c \<Longrightarrow> get_level_values c n = Inr (levels c ! n)"
  by (cases c) simp_all

lemma level_values_ok:
  "\<forall>n\<in>set ns. n < nlevels c \<Longrightarrow> level_values c ns = Inr (map (\<lambda>n. levels c ! n) ns)"
  by (induction ns) (simp_all add: get_level_values_ok)

lemma level_values_all: "level_values c [0..<nlevels c] = Inr (levels c)"
proof -
  have "level_values c [0..<nlevels c] = Inr (map (\<lambda>n. levels c ! n) [0..<length (levels c)])"
    by (simp add: level_values_ok length_levels)
  then show ?thesis by (simp add: map_nth)
qed

lemma nlevels_pad_index: "nlevels (pad_index n c) = max n (nlevels c)"
  by (simp add: pad_index_def length_levels)

lemma pad_index_idem: "pad_index n (pad_index n c) = pad_index n c"
  by (simp add: pad_index_def length_levels)

lemma hd_levels: "wf_index c \<Longrightarrow> length (hd (levels c)) = index_size c"
proof (cases c)
  case (MultiIndex ls)
  assume "wf_index c"
  with MultiIndex show ?thesis by (cases ls) simp_all
qed simp

lemma levels_nonempty: "wf_index c \<Longrightarrow> levels c \<noteq> []"
  by (cases c) auto

lemma levels_same_length: "wf_index c \<Longrightarrow> l \<in> set (levels c) \<Longrightarrow> length l = index_size c"
proof (cases c)
  case (MultiIndex ls)
  assume "wf_index c" and "l \<in> set (levels c)"
  with MultiIndex show ?thesis by (cases ls) (auto simp: list_all_iff)
qed simp

lemma from_arrays_pad:
  assumes "wf_index c" "nlevels c < n"
  shows "MultiIndex_from_arrays
           (levels c @ replicate (n - nlevels c) (replicate (index_size c) (PStr ''''))) =
         Inr (pad_index n c)"
proof -
  let ?arrays = "levels c @ replicate (n - nlevels c) (replicate (index_size c) (PStr ''''))"
  have "hd ?arrays = hd (levels c)" using levels_nonempty [OF assms(1)] by simp
  then have "length (hd ?arrays) = index_size c" by (simp add: hd_levels [OF assms(1)])
  moreover have "\<forall>a\<in>set ?arrays. length a = index_size c"
    using levels_same_length [OF assms(1)] by auto
  ultimately have "\<not> list_ex (\<lambda>a. length a \<noteq> length (hd ?arrays)) ?arrays"
    by (simp add: list_ex_iff)
  moreover have "?arrays \<noteq> []" using levels_nonempty [OF assms(1)] by simp
  ultimately show ?thesis using assms(2)
    by (simp add: MultiIndex_from_arrays_def pad_index_def)
qed

lemma index_size_pad_index: "wf_index c \<Longrightarrow> index_size (pad_index n c) = index_size c"
proof -
  assume w: "wf_index c"
  then obtain l ls where "levels c = l # ls" using levels_nonempty by (cases "levels c") auto
  then show ?thesis using hd_levels [OF w] by (simp add: pad_index_def)
qed

lemma wf_pad_index: "wf_index c \<Longrightarrow> wf_index (pad_index n c)"
proof -
  assume w: "wf_index c"
  then obtain l ls where l: "levels c = l # ls" using levels_nonempty by (cases "levels c") auto
  show ?thesis
    using w l hd_levels [OF w] levels_same_length [OF w]
    by (auto simp: pad_index_def list_all_iff)
qed

lemma heap_update_same: "h\<lparr>objects := (objects h)(r := (objects h r)\<lparr>columns := columns (objects h r)\<rparr>)\<rparr> = h"
  by simp

lemma pad_frame_ok:
  assumes "wf_index (columns (objects h r))"
  shows "pad_frame n (DataFrame r) h =
    (Inr (), h\<lparr>objects := (objects h)
       (r := (objects h r)\<lparr>columns := pad_index n (columns (objects h r))\<rparr>)\<rparr>)"
proof (cases "nlevels (columns (objects h r)) < n")
  case True
  then show ?thesis
    using from_arrays_pad [OF assms True] index_size_pad_index [OF assms, of n]
    by (simp add: pad_frame_def level_values_all set_columns_def)
next
  case False
  then show ?thesis by (simp add: pad_frame_def pad_index_def)
qed

lemma pad_frames_ok:
  "\<forall>r\<in>set rs. wf_index (columns (objects h r)) \<Longrightarrow>
   pad_frames n (map DataFrame rs) h =
     (Inr (map DataFrame rs),
      h\<lparr>objects := (\<lambda>r. if r \<in> set rs
                          then (objects h r)\<lparr>columns := pad_index n (columns (objects h r))\<rparr>
                          else objects h r)\<rparr>)"
proof (induction rs arbitrary: h)
  case Nil
  then show ?case by simp
next
  case (Cons r rs)
  let ?h1 = "h\<lparr>objects := (objects h)
       (r := (objects h r)\<lparr>columns := pad_index n (columns (objects h r))\<rparr>)\<rparr>"
  have p: "pad_frame n (DataFrame r) h = (Inr (), ?h1)"
    using Cons.prems by (simp add: pad_frame_ok)
  have w: "\<forall>r'\<in>set rs. wf_index (columns (objects ?h1 r'))"
    using Cons.prems by (simp add: wf_pad_index)
  have "(\<lambda>r'. if r' \<in> set rs
               then (objects ?h1 r')\<lparr>columns := pad_index n (columns (objects ?h1 r'))\<rparr>
               else objects ?h1 r') =
        (\<lambda>r'. if r' \<in> set (r # rs)
               then (objects h r')\<lparr>columns := pad_index n (columns (objects h r'))\<rparr>
               else objects h r')"
    by (auto simp: fun_eq_iff pad_index_idem)
  then show ?case
    using p Cons.IH [OF w] by simp
qed

lemma reconcile_ok:
  assumes "\<forall>r\<in>set rs. wf_index (columns (objects h r))"
  shows "reconcile (map DataFrame rs) h =
     (Inr (map DataFrame rs),
      if 1 < card ((\<lambda>r. nlevels (columns (objects h r))) ` set rs)
      then h\<lparr>objects := (\<lambda>r. if r \<in> set rs
             then (objects h r)\<lparr>columns :=
               pad_index (card ((\<lambda>r. nlevels (columns (objects h r))) ` set rs))
                 (columns (objects h r))\<rparr>
             else objects h r)\<rparr>
      else h)"
  using assms by (simp add: reconcile_def all_nlevels_frames pad_frames_ok)

text \<open>
  Claim C4. When the requests produce more than one partial result, all of them data
  frames with well-formed headers, reconciliation succeeds and keeps the list of
  partial results as it is, in the order of the requests, and \<^verbatim>\<open>summarise\<close> returns
  \<^verbatim>\<open>pd.concat\<close> of that list: along axis 1 (side by side) when \<^verbatim>\<open>by\<close> is truthy, along
  axis 0 (stacked) otherwise.
\<close>

theorem C4_concat_axis:
  "args \<noteq> [] \<Longrightarrow> normalise 0 args = Inr aggs \<Longrightarrow> resolve_by env df by h = Inr (b, val) \<Longrightarrow>
   execute env df val aggs h = (Inr (map DataFrame rs), h1) \<Longrightarrow> 1 < length rs \<Longrightarrow>
   \<forall>r\<in>set rs. wf_index (columns (objects h1 r)) \<Longrightarrow>
   \<exists>h2. reconcile (map DataFrame rs) h1 = (Inr (map DataFrame rs), h2) \<and>
     summarise env df args by h =
       (case pd_concat env (map DataFrame rs) (if truthy by then 1 else 0) h2 of
          (Inl e, h3) \<Rightarrow> (Inl e, h3)
        | (Inr r, h3) \<Rightarrow> (Inr (DataFrame r), h3))"
proof -
  assume ne: "args \<noteq> []" and n: "normalise 0 args = Inr aggs"
    and r: "resolve_by env df by h = Inr (b, val)"
    and e: "execute env df val aggs h = (Inr (map DataFrame rs), h1)"
    and l: "1 < length rs" and w: "\<forall>r\<in>set rs. wf_index (columns (objects h1 r))"
  from reconcile_ok [OF w] obtain h2 where
    h2: "reconcile (map DataFrame rs) h1 = (Inr (map DataFrame rs), h2)" by blast
  have b: "b = truthy by" using r by (rule resolve_by_truthy)
  have "summarise env df args by h =
       (case pd_concat env (map DataFrame rs) (if truthy by then 1 else 0) h2 of
          (Inl e, h3) \<Rightarrow> (Inl e, h3)
        | (Inr r, h3) \<Rightarrow> (Inr (DataFrame r), h3))"
    using ne n r e l h2 b by (simp add: summarise_def assemble_def)
  with h2 show ?thesis by blast
qed

theorem C4_concat_axis_witness:
  "(\<exists>h2. reconcile (map DataFrame [1, 2])
            (snd (execute (ex_env fresh_calls) 0 (GroupByView 0 (ByKeys [PStr ''b'']))
               [\<lparr>col = PStr ''a'', func = [PStr ''mean''], name = PNone\<rparr>,
                \<lparr>col = PStr ''a'', func = [PStr ''sum''], name = PNone\<rparr>] heap_ab)) =
            (Inr (map DataFrame [1, 2]), h2) \<and>
      summarise (ex_env fresh_calls) 0
        [PTuple [PStr ''a'', PStr ''mean''], PTuple [PStr ''a'', PStr ''sum'']] (PStr ''b'')
        heap_ab =
      (case pd_concat (ex_env fresh_calls) (map DataFrame [1, 2]) 1 h2 of
         (Inl e, h3) \<Rightarrow> (Inl e, h3)
       | (Inr r, h3) \<Rightarrow> (Inr (DataFrame r), h3))) \<and>
   (\<exists>h2. reconcile (map DataFrame [1, 2])
            (snd (execute (ex_env fresh_calls) 0 (DataFrameView 0)
               [\<lparr>col = PStr ''a'', func = [PStr ''mean''], name = PNone\<rparr>,
                \<lparr>col = PStr ''a'', func = [PStr ''sum''], name = PNone\<rparr>] heap_ab)) =
            (Inr (map DataFrame [1, 2]), h2) \<and>
      summarise (ex_env fresh_calls) 0
        [PTuple [PStr ''a'', PStr ''mean''], PTuple [PStr ''a'', PStr ''sum'']] PNone
        heap_ab =
      (case pd_concat (ex_env fresh_calls) (map DataFrame [1, 2]) 0 h2 of
         (Inl e, h3) \<Rightarrow> (Inl e, h3)
       | (Inr r, h3) \<Rightarrow> (Inr (DataFrame r), h3)))"
proof -
  let ?args = "[PTuple [PStr ''a'', PStr ''mean''], PTuple [PStr ''a'', PStr ''sum'']]"
  let ?aggs = "[\<lparr>col = PStr ''a'', func = [PStr ''mean''], name = PNone\<rparr>,
                \<lparr>col = PStr ''a'', func = [PStr ''sum''], name = PNone\<rparr>]"
  let ?g = "GroupByView 0 (ByKeys [PStr ''b''])"
  let ?env = "ex_env fresh_calls"
  have ne: "?args \<noteq> []" by simp
  have n: "normalise 0 ?args = Inr ?aggs" by (simp add: normalise_arg_def check_def)
  have l: "1 < length [1::nat, 2]" by simp
  have r: "resolve_by ?env 0 (PStr ''b'') heap_ab = Inr (True, ?g)"
    by (simp add: resolve_by_def resolve_columns_def ex_env_def ex_get_index_labels_def
        heap_ab_def)
  have "fst (execute ?env 0 ?g ?aggs heap_ab) = Inr (map DataFrame [1, 2])"
    by code_simp
  then have e: "execute ?env 0 ?g ?aggs heap_ab =
      (Inr (map DataFrame [1, 2]), snd (execute ?env 0 ?g ?aggs heap_ab))"
    by (metis prod.collapse)
  have w: "\<forall>r\<in>set [1, 2]. wf_index (columns (objects (snd (execute ?env 0 ?g ?aggs heap_ab)) r))"
    by code_simp
  have r': "resolve_by ?env 0 PNone heap_ab = Inr (False, DataFrameView 0)"
    by (simp add: resolve_by_def)
  have "fst (execute ?env 0 (DataFrameView 0) ?aggs heap_ab) = Inr (map DataFrame [1, 2])"
    by code_simp
  then have e': "execute ?env 0 (DataFrameView 0) ?aggs heap_ab =
      (Inr (map DataFrame [1, 2]), snd (execute ?env 0 (DataFrameView 0) ?aggs heap_ab))"
    by (metis prod.collapse)
  have w': "\<forall>r\<in>set [1, 2].
      wf_index (columns (objects (snd (execute ?env 0 (DataFrameView 0) ?aggs heap_ab)) r))"
    by code_simp
  have t: "truthy (PStr ''b'')" "\<not> truthy PNone" by simp_all
  from C4_concat_axis [OF ne n r e l w] C4_concat_axis [OF ne n r' e' l w'] t
  show ?thesis by simp
qed

text \<open>
  Claim C1 fails on the code. The depth padded to is the number of distinct depths,
  \<^verbatim>\<open>len(no_of_levels)\<close>, not the greatest depth. Without grouping, the request
  \<^verbatim>\<open>("a", "mean")\<close> gives a header of depth 1 and the callable of the second request
  one of depth 3: the first is padded to depth 2 and the second stays at depth 3.
  Grouped by \<^verbatim>\<open>b\<close>, the depths are 2 and 3 and nothing is padded.
\<close>

theorem C1_depth_mismatch:
  "fst (summarise (ex_env fresh_calls) 0
          [PTuple [PStr ''a'', PStr ''mean''], PTuple [PStr ''a'', PCallable 1]] PNone heap_ab) =
     Inr (DataFrame 3) \<and>
   columns (objects (snd (summarise (ex_env fresh_calls) 0
          [PTuple [PStr ''a'', PStr ''mean''], PTuple [PStr ''a'', PCallable 1]] PNone heap_ab)) 1) =
     MultiIndex [[PStr ''a''], [PStr '''']] \<and>
   columns (objects (snd (summarise (ex_env fresh_calls) 0
          [PTuple [PStr ''a'', PStr ''mean''], PTuple [PStr ''a'', PCallable 1]] PNone heap_ab)) 2) =
     MultiIndex [[PStr ''a''], [PStr ''q''], [PStr ''r'']] \<and>
   fst (summarise (ex_env fresh_calls) 0
          [PTuple [PStr ''a'', PStr ''mean''], PTuple [PStr ''a'', PCallable 1]] (PStr ''b'')
          heap_ab) = Inr (DataFrame 3) \<and>
   columns (objects (snd (summarise (ex_env fresh_calls) 0
          [PTuple [PStr ''a'', PStr ''mean''], PTuple [PStr ''a'', PCallable 1]] (PStr ''b'')
          heap_ab)) 1) =
     MultiIndex [[PStr ''a''], [PStr ''mean'']] \<and>
   columns (objects (snd (summarise (ex_env fresh_calls) 0
          [PTuple [PStr ''a'', PStr ''mean''], PTuple [PStr ''a'', PCallable 1]] (PStr ''b'')
          heap_ab)) 2) =
     MultiIndex [[PStr ''a''], [PStr ''q''], [PStr ''r'']]"
  by code_simp

section \<open>The swallowed exception\<close>

text \<open>
  Claim C2 fails on the code. The primary path raises \<^verbatim>\<open>AttributeError\<close> for the unknown
  function name, the handler of line 180 does nothing because the function is not
  callable, and \<^verbatim>\<open>summarise\<close> returns the column label \<^verbatim>\<open>a\<close> instead of failing.
\<close>

theorem C2_swallowed_error:
  "agg (ex_env fresh_calls) (DataFrameView 0) [PStr ''a''] (PList [PStr ''nosuchfunc'']) heap_ab =
     (Inl (AttributeError ''not a valid function''), heap_ab) \<and>
   \<not> list_all callable [PStr ''nosuchfunc''] \<and>
   summarise (ex_env fresh_calls) 0 [PTuple [PStr ''a'', PStr ''nosuchfunc'']] PNone heap_ab =
     (Inr (Label (PStr ''a'')), heap_ab)"
  by (simp add: summarise_def normalise_arg_def check_def resolve_by_def exec_request_def
      resolve_columns_def ex_env_def ex_get_index_labels_def heap_ab_def apply_funcs_def
      ex_agg_def rename_out_def assemble_def)

section \<open>The input data frame\<close>





















section \<open>The depth after reconciliation\<close>

text \<open>
  What lines 196 to 212 achieve in general. For data frames with well-formed headers,
  reconciliation succeeds and keeps the list; when the depths differ, a frame of
  depth \<open>d\<close> ends with depth \<open>max k d\<close>, where \<open>k\<close> is the number of distinct depths.
  The depths become uniform exactly when no depth exceeds \<open>k\<close>, as with the depths 1
  and 2 of a plain and a grouped result.
\<close>

theorem reconcile_depths:
  "\<forall>r\<in>set rs. wf_index (columns (objects h r)) \<Longrightarrow>
   \<exists>h'. reconcile (map DataFrame rs) h = (Inr (map DataFrame rs), h') \<and>
     (\<forall>r\<in>set rs.
        nlevels (columns (objects h' r)) =
          (if 1 < card ((\<lambda>r. nlevels (columns (objects h r))) ` set rs)
           then max (card ((\<lambda>r. nlevels (columns (objects h r))) ` set rs))
                  (nlevels (columns (objects h r)))
           else nlevels (columns (objects h r))))"
proof -
  assume w: "\<forall>r\<in>set rs. wf_index (columns (objects h r))"
  show ?thesis
    unfolding reconcile_ok [OF w] by (auto simp: nlevels_pad_index)
qed

theorem reconcile_depths_witness:
  "\<exists>h'. reconcile (map DataFrame [1, 2])
      (heap_ab\<lparr>objects := (objects heap_ab)
         (1 := \<lparr>columns = Index [PStr ''a''], row_index = Index [], data = []\<rparr>,
          2 := \<lparr>columns = MultiIndex [[PStr ''a''], [PStr ''q''], [PStr ''r'']],
                row_index = Index [], data = []\<rparr>)\<rparr>) =
      (Inr (map DataFrame [1, 2]), h') \<and>
     nlevels (columns (objects h' 1)) = 2 \<and> nlevels (columns (objects h' 2)) = 3"
proof -
  let ?h = "heap_ab\<lparr>objects := (objects heap_ab)
         (1 := \<lparr>columns = Index [PStr ''a''], row_index = Index [], data = []\<rparr>,
          2 := \<lparr>columns = MultiIndex [[PStr ''a''], [PStr ''q''], [PStr ''r'']],
                row_index = Index [], data = []\<rparr>)\<rparr>"
  have w: "\<forall>r\<in>set [1, 2]. wf_index (columns (objects ?h r))" by simp
  have c: "card ((\<lambda>r. nlevels (columns (objects ?h r))) ` set [1, 2]) = 2" by simp
  from reconcile_depths [OF w] obtain h' where
    "reconcile (map DataFrame [1, 2]) ?h = (Inr (map DataFrame [1, 2]), h')"
    "\<forall>r\<in>set [1, 2]. nlevels (columns (objects h' r)) =
          (if 1 < card ((\<lambda>r. nlevels (columns (objects ?h r))) ` set [1, 2])
           then max (card ((\<lambda>r. nlevels (columns (objects ?h r))) ` set [1, 2]))
                  (nlevels (columns (objects ?h r)))
           else nlevels (columns (objects ?h r)))"
    by blast
  then show ?thesis unfolding c by (intro exI [of _ h']) simp
qed

end
